theory Spec2Isabelle
  imports Complex_Main "HOL-Library.Multiset" "HOL-Library.Char_ord" "HOL-Library.List_Lexorder"
begin

section \<open>The permutation test of ChronicPain.ipynb\<close>

text \<open>
  The notebook \<^verbatim>\<open>src/students/ChronicPain.ipynb\<close> runs a permutation test on a table of
  (Group, Result) rows with pandas and numpy. Its code is the two functions
  \<^verbatim>\<open>difference_of_means_abs\<close> (cell 14) and \<^verbatim>\<open>one_simulated_difference\<close> (cell 17), the
  repetitions loop (cell 22) and the line computing \<^verbatim>\<open>empirical_P\<close> (cell 24).

  The embedding is shallow. A data frame is a record of its row index and its columns in
  order; every pandas call the notebook makes is a function on that record, and every
  exception a call can raise is a value of \<open>error\<close>. Numbers are float64 in the notebook
  and exact reals here, with \<open>None\<close> for NaN: rounding is not modelled. The library
  behaviour is the one of the pandas the notebook was run with (the outputs stored in the
  notebook show it): \<^verbatim>\<open>groupby(...).mean()\<close> leaves non-numeric columns out, and an
  integer key on a series labelled by strings is a position.
\<close>

subsection \<open>Data\<close>

datatype error = KeyError | IndexError | ValueError | DataError | ZeroDivisionError

text \<open>A column is numeric (float64) or holds strings (object); \<open>None\<close> is NaN.\<close>

datatype column = NumCol "real option list" | StrCol "string option list"

record dataframe =
  index :: "nat list"
  columns :: "(string \<times> column) list"

text \<open>A series is one column with the row labels it is aligned by.\<close>

record series =
  s_index :: "nat list"
  s_values :: column

text \<open>
  The result of \<^verbatim>\<open>groupby(key).mean()\<close>: one row per group, labelled by the group's key,
  and one column of means per numeric column of the frame.
\<close>

record grouped =
  g_index :: column
  g_columns :: "(string \<times> real option list) list"

fun col_length :: "column \<Rightarrow> nat" where
  "col_length (NumCol vs) = length vs"
| "col_length (StrCol vs) = length vs"

text \<open>The rows of a column at the positions \<open>p\<close>, in the order of \<open>p\<close>.\<close>

definition take_rows :: "nat list \<Rightarrow> 'a list \<Rightarrow> 'a list" where
  "take_rows p xs = map (\<lambda>i. xs ! i) p"

fun col_take :: "nat list \<Rightarrow> column \<Rightarrow> column" where
  "col_take p (NumCol vs) = NumCol (take_rows p vs)"
| "col_take p (StrCol vs) = StrCol (take_rows p vs)"

text \<open>
  \<^verbatim>\<open>pd.read_csv('./ab_data/bta.csv')\<close>. The file is not part of the sources, so its
  rows are a parameter: each row is a group label and an outcome. The frame gets the
  default index \<open>0, ..., N - 1\<close>, a string column \<^verbatim>\<open>Group\<close> and a float column
  \<^verbatim>\<open>Result\<close>, as the notebook's output of \<^verbatim>\<open>bta_df.head()\<close> shows.
\<close>

definition read_csv :: "(string \<times> real) list \<Rightarrow> dataframe" where
  "read_csv rows =
     \<lparr>index = [0..<length rows],
      columns = [(''Group'', StrCol (map (\<lambda>r. Some (fst r)) rows)),
                 (''Result'', NumCol (map (\<lambda>r. Some (snd r)) rows))]\<rparr>"

subsection \<open>The pandas calls of the notebook\<close>

text \<open>\<^verbatim>\<open>df[name]\<close>: the column as a series; a name that is no column raises KeyError.\<close>

definition getitem :: "dataframe \<Rightarrow> string \<Rightarrow> error + series" where
  "getitem df name =
     (case map_of (columns df) name of
        None \<Rightarrow> Inl KeyError
      | Some c \<Rightarrow> Inr \<lparr>s_index = index df, s_values = c\<rparr>)"

text \<open>
  \<^verbatim>\<open>df.sample(n=df.shape[0], replace=False)\<close>: all rows, drawn without replacement.
  The random draw is the argument \<open>p\<close>, the positions in the order drawn; numpy draws a
  permutation of \<open>0, ..., N - 1\<close>. The rows keep their index labels.
\<close>

definition is_draw :: "nat list \<Rightarrow> dataframe \<Rightarrow> bool" where
  "is_draw p df = (mset p = mset [0..<length (index df)])"

definition sample :: "nat list \<Rightarrow> dataframe \<Rightarrow> dataframe" where
  "sample p df =
     \<lparr>index = take_rows p (index df),
      columns = map (\<lambda>(n, c). (n, col_take p c)) (columns df)\<rparr>"

text \<open>
  \<^verbatim>\<open>reset_index()\<close>: the old index becomes a new first column, named \<^verbatim>\<open>index\<close>, or
  \<^verbatim>\<open>level_0\<close> when that name is taken (ValueError when both are), and the rows are
  labelled \<open>0, ..., N - 1\<close> anew.
\<close>

definition reset_index :: "dataframe \<Rightarrow> error + dataframe" where
  "reset_index df =
     (let names = map fst (columns df);
          old = NumCol (map (\<lambda>l. Some (real l)) (index df));
          fresh = [0..<length (index df)]
      in if ''index'' \<notin> set names
           then Inr \<lparr>index = fresh, columns = (''index'', old) # columns df\<rparr>
         else if ''level_0'' \<notin> set names
           then Inr \<lparr>index = fresh, columns = (''level_0'', old) # columns df\<rparr>
         else Inl ValueError)"

text \<open>
  Alignment of a series to the row labels \<open>idx\<close> of a frame: each row gets the value the
  series has at that row's label, and NaN when the series has no such label.
\<close>

definition align :: "nat list \<Rightarrow> 'a option list \<Rightarrow> nat list \<Rightarrow> 'a option list" where
  "align si vs idx =
     map (\<lambda>l. case map_of (zip si vs) l of None \<Rightarrow> None | Some v \<Rightarrow> v) idx"

definition reindex :: "series \<Rightarrow> nat list \<Rightarrow> column" where
  "reindex s idx =
     (case s_values s of
        NumCol vs \<Rightarrow> NumCol (align (s_index s) vs idx)
      | StrCol vs \<Rightarrow> StrCol (align (s_index s) vs idx))"

text \<open>
  \<^verbatim>\<open>df[name] = s\<close>: the series is aligned to the frame's index; an existing column of
  that name is overwritten in place, a new one is appended as the last column. The
  frame is changed in place, so the model returns the frame as the caller sees it next.
\<close>

definition setitem :: "dataframe \<Rightarrow> string \<Rightarrow> series \<Rightarrow> dataframe" where
  "setitem df name s =
     (let v = reindex s (index df)
      in if name \<in> set (map fst (columns df))
           then df\<lparr>columns := map (\<lambda>(n, c). if n = name then (n, v) else (n, c)) (columns df)\<rparr>
         else df\<lparr>columns := columns df @ [(name, v)]\<rparr>)"

text \<open>\<^verbatim>\<open>df.drop(name, axis=1)\<close>: a new frame without the column; KeyError when there is none.\<close>

definition drop_col :: "dataframe \<Rightarrow> string \<Rightarrow> error + dataframe" where
  "drop_col df name =
     (if name \<in> set (map fst (columns df))
        then Inr (df\<lparr>columns := filter (\<lambda>(n, c). n \<noteq> name) (columns df)\<rparr>)
      else Inl KeyError)"

text \<open>The values of a float column that are not NaN.\<close>

fun dropna :: "'a option list \<Rightarrow> 'a list" where
  "dropna [] = []"
| "dropna (None # vs) = dropna vs"
| "dropna (Some v # vs) = v # dropna vs"

text \<open>The mean of a group's values as pandas takes it: NaN is skipped, and the mean of nothing is NaN.\<close>

definition mean :: "real option list \<Rightarrow> real option" where
  "mean vs =
     (let xs = dropna vs
      in if xs = [] then None else Some (sum_list xs / real (length xs)))"

text \<open>The group keys: the distinct values of the key column, NaN left out, in sorted order.\<close>

definition group_keys :: "('k::linorder) option list \<Rightarrow> 'k list" where
  "group_keys ks = sort (remdups (dropna ks))"

text \<open>The values of the rows whose key is \<open>k\<close>.\<close>

definition group_values :: "'k option list \<Rightarrow> 'a list \<Rightarrow> 'k \<Rightarrow> 'a list" where
  "group_values ks vs k = map snd (filter (\<lambda>(k', v). k' = Some k) (zip ks vs))"

definition group_means :: "('k::linorder) option list \<Rightarrow> real option list \<Rightarrow> real option list" where
  "group_means ks vs = map (\<lambda>k. mean (group_values ks vs k)) (group_keys ks)"

text \<open>The numeric columns of a frame other than the key column, in the frame's order.\<close>

fun numeric_columns :: "string \<Rightarrow> (string \<times> column) list \<Rightarrow> (string \<times> real option list) list" where
  "numeric_columns key [] = []"
| "numeric_columns key ((n, NumCol vs) # cs) =
     (if n = key then numeric_columns key cs else (n, vs) # numeric_columns key cs)"
| "numeric_columns key ((n, StrCol vs) # cs) = numeric_columns key cs"

text \<open>
  \<^verbatim>\<open>df.groupby(key).mean()\<close>: KeyError when \<open>key\<close> is no column; DataError when no
  numeric column is left to average; otherwise one row per key in sorted order with the
  mean of every numeric column over the rows of that key.
\<close>

definition groupby_mean :: "dataframe \<Rightarrow> string \<Rightarrow> error + grouped" where
  "groupby_mean df key =
     (case map_of (columns df) key of
        None \<Rightarrow> Inl KeyError
      | Some kc \<Rightarrow>
          (let num = numeric_columns key (columns df)
           in if num = [] then Inl DataError
              else Inr (case kc of
                     StrCol ks \<Rightarrow>
                       \<lparr>g_index = StrCol (map Some (group_keys ks)),
                        g_columns = map (\<lambda>(n, vs). (n, group_means ks vs)) num\<rparr>
                   | NumCol ks \<Rightarrow>
                       \<lparr>g_index = NumCol (map Some (group_keys ks)),
                        g_columns = map (\<lambda>(n, vs). (n, group_means ks vs)) num\<rparr>)))"

text \<open>\<^verbatim>\<open>g.iloc(0)[i]\<close>: row \<open>i\<close> of the grouped means by position, IndexError past the last row.\<close>

definition iloc :: "grouped \<Rightarrow> nat \<Rightarrow> error + (string \<times> real option) list" where
  "iloc g i =
     (if i < col_length (g_index g)
        then Inr (map (\<lambda>(n, vs). (n, vs ! i)) (g_columns g))
      else Inl IndexError)"

text \<open>
  \<^verbatim>\<open>row[j]\<close> on a row labelled by column names: the integer is a position, IndexError
  past the last column.
\<close>

definition row_getitem :: "(string \<times> real option) list \<Rightarrow> nat \<Rightarrow> error + real option" where
  "row_getitem row j = (if j < length row then Inr (snd (row ! j)) else Inl IndexError)"

text \<open>Float subtraction and absolute value: NaN in, NaN out.\<close>

fun float_sub :: "real option \<Rightarrow> real option \<Rightarrow> real option" where
  "float_sub (Some x) (Some y) = Some (x - y)"
| "float_sub _ _ = None"

fun float_abs :: "real option \<Rightarrow> real option" where
  "float_abs (Some x) = Some \<bar>x\<bar>"
| "float_abs None = None"

text \<open>A comparison with NaN is false.\<close>

fun float_le :: "real option \<Rightarrow> real option \<Rightarrow> bool" where
  "float_le (Some x) (Some y) = (x \<le> y)"
| "float_le _ _ = False"

subsection \<open>The notebook's functions\<close>

text \<open>
  \<^verbatim>\<open>
  def difference_of_means_abs(df, group_label):
      one_value = df.groupby(group_label).mean().iloc(0)[0][0]
      another_value = df.groupby(group_label).mean().iloc(0)[1][0]
      observed_diff = abs(one_value-another_value)
      return observed_diff
  \<close>
\<close>

definition one_value :: "dataframe \<Rightarrow> string \<Rightarrow> error + real option" where
  "one_value df group_label =
     (case groupby_mean df group_label of
        Inl e \<Rightarrow> Inl e
      | Inr g \<Rightarrow> (case iloc g 0 of Inl e \<Rightarrow> Inl e | Inr row \<Rightarrow> row_getitem row 0))"

definition another_value :: "dataframe \<Rightarrow> string \<Rightarrow> error + real option" where
  "another_value df group_label =
     (case groupby_mean df group_label of
        Inl e \<Rightarrow> Inl e
      | Inr g \<Rightarrow> (case iloc g 1 of Inl e \<Rightarrow> Inl e | Inr row \<Rightarrow> row_getitem row 0))"

definition difference_of_means_abs :: "dataframe \<Rightarrow> string \<Rightarrow> error + real option" where
  "difference_of_means_abs df group_label =
     (case one_value df group_label of
        Inl e \<Rightarrow> Inl e
      | Inr a \<Rightarrow>
          (case another_value df group_label of
             Inl e \<Rightarrow> Inl e
           | Inr b \<Rightarrow> Inr (float_abs (float_sub a b))))"

text \<open>
  \<^verbatim>\<open>
  def one_simulated_difference(df, group_label):
      temp_df = df.sample(n=df.shape[0], replace=False).reset_index()
      df['Shuffled Label'] = temp_df[group_label]
      df = df.drop(group_label, axis=1)
      return difference_of_means_abs(df, 'Shuffled Label')
  \<close>
  The second line writes into the frame the caller passed; the third binds the local
  name to a new frame. The model returns the result together with the caller's frame as
  it is after the call, also when the call raises.
\<close>

definition one_simulated_difference ::
  "nat list \<Rightarrow> dataframe \<Rightarrow> string \<Rightarrow> (error + real option) \<times> dataframe" where
  "one_simulated_difference p df group_label =
     (case reset_index (sample p df) of
        Inl e \<Rightarrow> (Inl e, df)
      | Inr temp_df \<Rightarrow>
          (case getitem temp_df group_label of
             Inl e \<Rightarrow> (Inl e, df)
           | Inr s \<Rightarrow>
               (let caller = setitem df ''Shuffled Label'' s
                in case drop_col caller group_label of
                     Inl e \<Rightarrow> (Inl e, caller)
                   | Inr df' \<Rightarrow> (difference_of_means_abs df' ''Shuffled Label'', caller))))"

text \<open>
  \<^verbatim>\<open>
  differences = []
  repetitions = 20000
  for i in np.arange(repetitions):
      new_difference = one_simulated_difference(bta_df, 'Group')
      differences.append(new_difference)
  \<close>
  \<open>rng i\<close> is the draw of iteration \<open>i\<close>. The state of the loop is the list
  \<^verbatim>\<open>differences\<close> and the frame \<^verbatim>\<open>bta_df\<close>, which every iteration writes to; an
  exception ends the loop.
\<close>

fun repetitions_loop ::
  "(nat \<Rightarrow> nat list) \<Rightarrow> nat list \<Rightarrow> real option list \<times> dataframe
     \<Rightarrow> error + real option list \<times> dataframe" where
  "repetitions_loop rng [] (differences, bta_df) = Inr (differences, bta_df)"
| "repetitions_loop rng (i # rest) (differences, bta_df) =
     (case one_simulated_difference (rng i) bta_df ''Group'' of
        (Inl e, bta_df') \<Rightarrow> Inl e
      | (Inr new_difference, bta_df') \<Rightarrow>
          repetitions_loop rng rest (differences @ [new_difference], bta_df'))"

definition simulate ::
  "(nat \<Rightarrow> nat list) \<Rightarrow> nat \<Rightarrow> dataframe \<Rightarrow> error + real option list \<times> dataframe" where
  "simulate rng repetitions bta_df = repetitions_loop rng [0..<repetitions] ([], bta_df)"

text \<open>
  \<^verbatim>\<open>empirical_P = np.count_nonzero(differences <= observed_difference) / repetitions\<close>.
  The comparison of the list with the numpy float is taken element by element; the
  quotient of the two integers raises ZeroDivisionError when \<open>repetitions\<close> is 0.
\<close>

definition empirical_P :: "real option list \<Rightarrow> real option \<Rightarrow> nat \<Rightarrow> error + real" where
  "empirical_P differences observed_difference repetitions =
     (if repetitions = 0 then Inl ZeroDivisionError
      else Inr (real (length (filter (\<lambda>d. float_le d observed_difference) differences))
                / real repetitions))"

subsection \<open>The specification's notions\<close>

text \<open>
  The specification speaks of a dataset as rows of a label and an outcome, of the mean
  outcome of a group, of exchanging the two labels and of the groups in sorted order.
  These definitions follow its words; the theorems below compare the code with them.
\<close>

definition group_outcomes :: "(string \<times> real) list \<Rightarrow> string \<Rightarrow> real list" where
  "group_outcomes rows a = map snd (filter (\<lambda>r. fst r = a) rows)"

definition group_mean :: "(string \<times> real) list \<Rightarrow> string \<Rightarrow> real" where
  "group_mean rows a = sum_list (group_outcomes rows a) / real (length (group_outcomes rows a))"

definition sorted_labels :: "(string \<times> real) list \<Rightarrow> string list" where
  "sorted_labels rows = sort (remdups (map fst rows))"

definition swap_labels :: "string \<Rightarrow> string \<Rightarrow> (string \<times> real) list \<Rightarrow> (string \<times> real) list" where
  "swap_labels a b rows =
     map (\<lambda>r. (if fst r = a then b else if fst r = b then a else fst r, snd r)) rows"

text \<open>
  The table of the study as the notebook describes it: 16 control rows with 2 successes
  and 15 treatment rows with 9 successes, the first rows as \<^verbatim>\<open>bta_df.head()\<close> prints them.
\<close>

definition bta_rows :: "(string \<times> real) list" where
  "bta_rows = [(''Control'', 1), (''Control'', 1)] @ replicate 14 (''Control'', 0)
              @ replicate 9 (''Treatment'', 1) @ replicate 6 (''Treatment'', 0)"

text \<open>
  The empirical p-value in the specification's words: the fraction of the values of the
  null distribution that are greater than or equal to the observed value.
\<close>

definition fraction_at_least :: "real option list \<Rightarrow> real option \<Rightarrow> real" where
  "fraction_at_least differences observed =
     real (length (filter (\<lambda>d. float_le observed d) differences)) / real (length differences)"

text \<open>
  The relabelled dataset of one iteration: the outcomes stay where they are and row \<open>i\<close>
  gets the label of the row drawn \<open>i\<close>-th.
\<close>

definition relabel :: "nat list \<Rightarrow> (string \<times> real) list \<Rightarrow> (string \<times> real) list" where
  "relabel p rows = zip (take_rows p (map fst rows)) (map snd rows)"

section \<open>The statistic on a loaded table\<close>

lemma dropna_map_Some: "dropna (map (\<lambda>x. Some (f x)) xs) = map f xs"
  by (induction xs) simp_all

lemma dropna_map_Some_id: "dropna (map Some xs) = xs"
  by (induction xs) simp_all

lemma group_keys_rows: "group_keys (map (\<lambda>r. Some (fst r)) rows) = sorted_labels rows"
  by (simp add: group_keys_def sorted_labels_def dropna_map_Some)

lemma group_values_rows:
  "group_values (map (\<lambda>r. Some (fst r)) rows) (map (\<lambda>r. Some (snd r)) rows) k
     = map Some (group_outcomes rows k)"
  by (induction rows) (auto simp: group_values_def group_outcomes_def)

lemma mean_map_Some:
  "xs \<noteq> [] \<Longrightarrow> mean (map Some xs) = Some (sum_list xs / real (length xs))"
  by (simp add: mean_def dropna_map_Some_id)

lemma group_outcomes_nonempty: "k \<in> fst ` set rows \<Longrightarrow> group_outcomes rows k \<noteq> []"
  by (induction rows) (auto simp: group_outcomes_def)

lemma set_sorted_labels: "set (sorted_labels rows) = fst ` set rows"
  by (simp add: sorted_labels_def)

lemma length_sorted_labels: "length (sorted_labels rows) = card (fst ` set rows)"
  by (simp add: sorted_labels_def length_remdups_card_conv)

lemma distinct_sorted_labels: "distinct (sorted_labels rows)"
  by (simp add: sorted_labels_def)

lemma sorted_labels_eq: "sorted_labels rows = sorted_list_of_set (fst ` set rows)"
proof -
  have "sorted_list_of_set (set (map fst rows)) = sort (remdups (map fst rows))"
    by (rule sorted_list_of_set_sort_remdups)
  then show ?thesis
    by (simp add: sorted_labels_def)
qed

lemma mean_group_rows:
  "k \<in> set (sorted_labels rows) \<Longrightarrow>
     mean (group_values (map (\<lambda>r. Some (fst r)) rows) (map (\<lambda>r. Some (snd r)) rows) k)
       = Some (group_mean rows k)"
  by (simp add: group_values_rows mean_map_Some group_outcomes_nonempty set_sorted_labels
      group_mean_def)

text \<open>
  What the three lines of \<^verbatim>\<open>difference_of_means_abs\<close> compute on any frame whose key
  column holds strings and that has a numeric column: the first numeric column's means
  of the first two groups, or IndexError when there are fewer than two groups.
\<close>

lemma statistic_general:
  assumes "map_of (columns df) key = Some (StrCol ks)"
    and "numeric_columns key (columns df) = (n, vs) # others"
  shows "difference_of_means_abs df key =
           (case group_keys ks of
              k0 # k1 # rest \<Rightarrow>
                Inr (float_abs (float_sub (mean (group_values ks vs k0))
                                          (mean (group_values ks vs k1))))
            | _ \<Rightarrow> Inl IndexError)"
  using assms
  by (auto simp: difference_of_means_abs_def one_value_def another_value_def groupby_mean_def
      iloc_def row_getitem_def group_means_def split: list.splits)

lemma statistic_rows:
  assumes "map_of (columns df) key = Some (StrCol (map (\<lambda>r. Some (fst r)) rows))"
    and "numeric_columns key (columns df) = (n, map (\<lambda>r. Some (snd r)) rows) # others"
  shows "difference_of_means_abs df key =
           (case sorted_labels rows of
              k0 # k1 # rest \<Rightarrow> Inr (Some \<bar>group_mean rows k0 - group_mean rows k1\<bar>)
            | _ \<Rightarrow> Inl IndexError)"
proof (cases "sorted_labels rows")
  case Nil
  then show ?thesis
    by (simp add: statistic_general [OF assms] group_keys_rows)
next
  case (Cons k0 tl)
  show ?thesis
  proof (cases tl)
    case Nil
    with Cons show ?thesis
      by (simp add: statistic_general [OF assms] group_keys_rows)
  next
    case (Cons k1 rest)
    with \<open>sorted_labels rows = k0 # tl\<close> have keys: "sorted_labels rows = k0 # k1 # rest"
      by simp
    then have "k0 \<in> set (sorted_labels rows)" and "k1 \<in> set (sorted_labels rows)"
      by simp_all
    then show ?thesis
      by (simp add: statistic_general [OF assms] group_keys_rows keys mean_group_rows)
  qed
qed

lemma statistic_read_csv:
  "difference_of_means_abs (read_csv rows) ''Group'' =
     (case sorted_labels rows of
        k0 # k1 # rest \<Rightarrow> Inr (Some \<bar>group_mean rows k0 - group_mean rows k1\<bar>)
      | _ \<Rightarrow> Inl IndexError)"
  by (rule statistic_rows [where n = "''Result''" and others = "[]"]) (simp_all add: read_csv_def)

lemma sorted_labels_two:
  assumes "fst ` set rows = {a, b}" and "a < b"
  shows "sorted_labels rows = [a, b]"
proof -
  have "sorted_labels rows = sorted_list_of_set (set (map fst rows))"
    unfolding sorted_labels_def by (rule sorted_list_of_set_sort_remdups [symmetric])
  also have "\<dots> = sorted_list_of_set {a, b}"
    using assms by simp
  also have "\<dots> = [a, b]"
    using assms by (simp add: insort_is_Cons less_imp_le)
  finally show ?thesis .
qed

lemma statistic_two_groups:
  assumes "fst ` set rows = {a, b}" and "a \<noteq> b"
  shows "difference_of_means_abs (read_csv rows) ''Group''
           = Inr (Some \<bar>group_mean rows a - group_mean rows b\<bar>)"
proof (cases "a < b")
  case True
  then show ?thesis
    by (simp add: statistic_read_csv sorted_labels_two [OF assms(1)])
next
  case False
  with assms have "b < a" and "fst ` set rows = {b, a}"
    by auto
  then show ?thesis
    by (simp add: statistic_read_csv sorted_labels_two [of rows b a] abs_minus_commute)
qed

lemma statistic_first_two:
  assumes "2 \<le> card (fst ` set rows)"
  shows "difference_of_means_abs (read_csv rows) ''Group''
           = Inr (Some \<bar>group_mean rows (sorted_labels rows ! 0)
                          - group_mean rows (sorted_labels rows ! 1)\<bar>)"
proof -
  from assms have "2 \<le> length (sorted_labels rows)"
    by (simp add: length_sorted_labels)
  then obtain k0 k1 rest where "sorted_labels rows = k0 # k1 # rest"
    by (cases "sorted_labels rows"; cases "tl (sorted_labels rows)") auto
  then show ?thesis
    by (simp add: statistic_read_csv)
qed

lemma statistic_too_few:
  assumes "card (fst ` set rows) < 2"
  shows "difference_of_means_abs (read_csv rows) ''Group'' = Inl IndexError"
proof -
  from assms have "length (sorted_labels rows) < 2"
    by (simp add: length_sorted_labels)
  then show ?thesis
    by (cases "sorted_labels rows"; cases "tl (sorted_labels rows)")
      (auto simp: statistic_read_csv)
qed

text \<open>
  C2. On a table whose rows carry exactly two labels \<open>a\<close> and \<open>b\<close> (both groups are
  non-empty), \<^verbatim>\<open>difference_of_means_abs\<close> returns a number, the number is not negative,
  and it is the absolute value of the difference between the mean outcome of the rows
  labelled \<open>a\<close> and the mean outcome of the rows labelled \<open>b\<close>.
\<close>

theorem difference_of_means_abs_two_groups:
  assumes "fst ` set rows = {a, b}" and "a \<noteq> b"
  shows "\<exists>v. difference_of_means_abs (read_csv rows) ''Group'' = Inr (Some v)
           \<and> 0 \<le> v \<and> v = \<bar>group_mean rows a - group_mean rows b\<bar>"
  using statistic_two_groups [OF assms] by simp

theorem difference_of_means_abs_two_groups_witness:
  "fst ` set [(''Control'', 1::real), (''Treatment'', 0), (''Control'', 0)]
     = {''Control'', ''Treatment''}
   \<and> ''Control'' \<noteq> ''Treatment''
   \<and> (\<exists>v. difference_of_means_abs
            (read_csv [(''Control'', 1), (''Treatment'', 0), (''Control'', 0)]) ''Group''
          = Inr (Some v) \<and> 0 \<le> v \<and> v = 1 / 2)"
  using difference_of_means_abs_two_groups
    [of "[(''Control'', 1), (''Treatment'', 0), (''Control'', 0)]" "''Control''" "''Treatment''"]
  by (simp add: group_mean_def group_outcomes_def insert_commute)

lemma group_outcomes_swap:
  assumes "a \<noteq> b"
  shows "group_outcomes (swap_labels a b rows) a = group_outcomes rows b"
    and "group_outcomes (swap_labels a b rows) b = group_outcomes rows a"
  using assms by (induction rows) (auto simp: group_outcomes_def swap_labels_def)

lemma labels_swap:
  assumes "fst ` set rows = {a, b}"
  shows "fst ` set (swap_labels a b rows) = {a, b}"
proof -
  have "map fst (swap_labels a b rows)
          = map (\<lambda>l. if l = a then b else if l = b then a else l) (map fst rows)"
    by (simp add: swap_labels_def)
  then have "set (map fst (swap_labels a b rows))
          = (\<lambda>l. if l = a then b else if l = b then a else l) ` set (map fst rows)"
    by (simp only: set_map)
  then show ?thesis
    using assms by auto
qed

text \<open>
  C3. On a table whose rows carry exactly two labels, writing on every row the other
  label (so that the two groups exchange their names) does not change what
  \<^verbatim>\<open>difference_of_means_abs\<close> returns.
\<close>

theorem difference_of_means_abs_symmetric:
  assumes "fst ` set rows = {a, b}" and "a \<noteq> b"
  shows "difference_of_means_abs (read_csv (swap_labels a b rows)) ''Group''
           = difference_of_means_abs (read_csv rows) ''Group''"
  using statistic_two_groups [OF labels_swap [OF assms(1)] assms(2)]
    statistic_two_groups [OF assms]
  by (simp add: group_mean_def group_outcomes_swap [OF assms(2)] abs_minus_commute)

theorem difference_of_means_abs_symmetric_witness:
  "fst ` set [(''Control'', 1::real), (''Treatment'', 0), (''Control'', 0)]
     = {''Control'', ''Treatment''}
   \<and> ''Control'' \<noteq> ''Treatment''
   \<and> swap_labels ''Control'' ''Treatment'' [(''Control'', 1), (''Treatment'', 0), (''Control'', 0)]
       = [(''Treatment'', 1), (''Control'', 0), (''Treatment'', 0)]
   \<and> difference_of_means_abs
        (read_csv [(''Treatment'', 1), (''Control'', 0), (''Treatment'', 0)]) ''Group''
       = difference_of_means_abs
           (read_csv [(''Control'', 1), (''Treatment'', 0), (''Control'', 0)]) ''Group''"
  using difference_of_means_abs_symmetric
    [of "[(''Control'', 1), (''Treatment'', 0), (''Control'', 0)]" "''Control''" "''Treatment''"]
  by (simp add: swap_labels_def insert_commute)

text \<open>
  C8, as the code has it. On a loaded table the statistic fails exactly when fewer than
  two distinct labels are present, that is, when a group is empty, and the failure is
  the IndexError of the positional read of the grouped means, not a division by zero.
  With two or more labels present it returns a number. The outcomes are not validated:
  the rows are arbitrary numbers here.
\<close>

theorem difference_of_means_abs_fails_iff:
  "(difference_of_means_abs (read_csv rows) ''Group'' = Inl IndexError)
     = (card (fst ` set rows) < 2)
   \<and> (\<exists>v. difference_of_means_abs (read_csv rows) ''Group'' = Inr (Some v))
     = (2 \<le> card (fst ` set rows))"
proof (cases "card (fst ` set rows) < 2")
  case True
  then show ?thesis by (simp add: statistic_too_few)
next
  case False
  then have "2 \<le> card (fst ` set rows)" by simp
  then show ?thesis by (simp add: statistic_first_two)
qed

text \<open>
  C8 as stated fails twice: with the treatment group empty the error is IndexError and
  no division by zero, and a table with the outcomes 7 and 1/2 is not refused.
\<close>

theorem difference_of_means_abs_error_counterexample:
  "difference_of_means_abs (read_csv [(''Control'', 1), (''Control'', 0)]) ''Group''
     = Inl IndexError
   \<and> difference_of_means_abs (read_csv [(''Control'', 7), (''Treatment'', 1 / 2)]) ''Group''
     = Inr (Some (13 / 2))"
  by code_simp

lemma group_outcomes_filter:
  "P k \<Longrightarrow> group_outcomes (filter (\<lambda>r. P (fst r)) rows) k = group_outcomes rows k"
  by (induction rows) (auto simp: group_outcomes_def)

text \<open>
  C10. On a table with more than two distinct labels \<^verbatim>\<open>difference_of_means_abs\<close> does
  not fail: it returns the absolute difference of the means of the first two groups in
  sorted order of the labels, which is also what it returns on the table with the rows
  of all other groups removed.
\<close>

theorem difference_of_means_abs_ignores_third_group:
  assumes "2 < card (fst ` set rows)"
  shows "difference_of_means_abs (read_csv rows) ''Group''
           = Inr (Some \<bar>group_mean rows (sorted_labels rows ! 0)
                          - group_mean rows (sorted_labels rows ! 1)\<bar>)
         \<and> difference_of_means_abs (read_csv rows) ''Group''
           = difference_of_means_abs
               (read_csv (filter (\<lambda>r. fst r = sorted_labels rows ! 0
                                      \<or> fst r = sorted_labels rows ! 1) rows))
               ''Group''"
proof -
  define k0 where "k0 = sorted_labels rows ! 0"
  define k1 where "k1 = sorted_labels rows ! 1"
  define kept where "kept = filter (\<lambda>r. fst r = k0 \<or> fst r = k1) rows"
  from assms have len: "2 < length (sorted_labels rows)"
    by (simp add: length_sorted_labels)
  then have "k0 \<in> set (sorted_labels rows)" and "k1 \<in> set (sorted_labels rows)"
    unfolding k0_def k1_def by (auto intro: nth_mem)
  then have mem: "k0 \<in> fst ` set rows" "k1 \<in> fst ` set rows"
    by (simp_all add: set_sorted_labels)
  have "0 < length (sorted_labels rows)" and "1 < length (sorted_labels rows)"
    using len by auto
  then have neq: "k0 \<noteq> k1"
    unfolding k0_def k1_def
    using nth_eq_iff_index_eq [OF distinct_sorted_labels, of 0 rows 1] by simp
  have first: "difference_of_means_abs (read_csv rows) ''Group''
                 = Inr (Some \<bar>group_mean rows k0 - group_mean rows k1\<bar>)"
    using assms by (simp add: statistic_first_two k0_def k1_def)
  have "fst ` set kept = {k0, k1}"
    using mem by (auto simp: kept_def image_iff)
  then have "difference_of_means_abs (read_csv kept) ''Group''
               = Inr (Some \<bar>group_mean kept k0 - group_mean kept k1\<bar>)"
    using neq by (rule statistic_two_groups)
  moreover have "group_outcomes kept k0 = group_outcomes rows k0"
    and "group_outcomes kept k1 = group_outcomes rows k1"
    unfolding kept_def
    by (rule group_outcomes_filter [where P = "\<lambda>l. l = k0 \<or> l = k1"], simp)+
  ultimately have "difference_of_means_abs (read_csv kept) ''Group''
                     = Inr (Some \<bar>group_mean rows k0 - group_mean rows k1\<bar>)"
    by (simp add: group_mean_def)
  with first show ?thesis
    by (simp add: k0_def k1_def kept_def)
qed

theorem difference_of_means_abs_ignores_third_group_witness:
  "2 < card (fst ` set [(''B'', 1::real), (''C'', 5), (''A'', 0), (''B'', 0)])
   \<and> difference_of_means_abs (read_csv [(''B'', 1), (''C'', 5), (''A'', 0), (''B'', 0)]) ''Group''
       = Inr (Some (1 / 2))
   \<and> difference_of_means_abs (read_csv [(''B'', 1), (''C'', 5), (''A'', 0), (''B'', 0)]) ''Group''
       = difference_of_means_abs (read_csv [(''B'', 1), (''A'', 0), (''B'', 0)]) ''Group''"
proof -
  have h: "2 < card (fst ` set [(''B'', 1::real), (''C'', 5), (''A'', 0), (''B'', 0)])"
    by (simp add: card_insert_if)
  show ?thesis
    using h difference_of_means_abs_ignores_third_group [OF h]
    by (auto simp: group_mean_def group_outcomes_def sorted_labels_def)
qed

section \<open>The table of the study\<close>

lemma mset_group_outcomes:
  "mset (group_outcomes rows a) = image_mset snd (filter_mset (\<lambda>r. fst r = a) (mset rows))"
  by (simp add: group_outcomes_def)

lemma group_mean_mset:
  "group_mean rows a =
     sum_mset (image_mset snd (filter_mset (\<lambda>r. fst r = a) (mset rows)))
       / real (size (filter_mset (\<lambda>r. fst r = a) (mset rows)))"
proof -
  have "sum_list (group_outcomes rows a) = sum_mset (mset (group_outcomes rows a))"
    by (simp add: sum_mset_sum_list)
  moreover have "length (group_outcomes rows a) = size (mset (group_outcomes rows a))"
    by simp
  ultimately show ?thesis
    unfolding group_mean_def by (simp only: mset_group_outcomes size_image_mset)
qed

lemma filter_replicate_mset:
  "filter_mset P (replicate_mset n x) = (if P x then replicate_mset n x else {#})"
  by (induction n) simp_all

lemma sum_replicate_mset: "sum_mset (replicate_mset n (x::real)) = real n * x"
  by (induction n) (simp_all add: algebra_simps)

text \<open>
  C6. On every table that holds, in any order of the rows, 16 control rows of which 2
  are successes and 15 treatment rows of which 9 are successes,
  \<^verbatim>\<open>difference_of_means_abs\<close> returns 0.475 (in exact arithmetic; the notebook prints
  the float 0.475).
\<close>

theorem difference_of_means_abs_bta:
  assumes "mset rows = replicate_mset 2 (''Control'', 1) + replicate_mset 14 (''Control'', 0)
                     + replicate_mset 9 (''Treatment'', 1) + replicate_mset 6 (''Treatment'', 0)"
  shows "difference_of_means_abs (read_csv rows) ''Group'' = Inr (Some 0.475)"
proof -
  have "set rows = set_mset (mset rows)"
    by simp
  then have "fst ` set rows = {''Control'', ''Treatment''}"
    unfolding assms by auto
  then have "difference_of_means_abs (read_csv rows) ''Group''
               = Inr (Some \<bar>group_mean rows ''Control'' - group_mean rows ''Treatment''\<bar>)"
    by (rule statistic_two_groups) simp
  moreover have "group_mean rows ''Control'' = 2 / 16"
    unfolding group_mean_mset assms by (simp add: filter_replicate_mset sum_replicate_mset)
  moreover have "group_mean rows ''Treatment'' = 9 / 15"
    unfolding group_mean_mset assms by (simp add: filter_replicate_mset sum_replicate_mset)
  ultimately show ?thesis
    by simp
qed

theorem difference_of_means_abs_bta_witness:
  "mset bta_rows = replicate_mset 2 (''Control'', 1) + replicate_mset 14 (''Control'', 0)
                     + replicate_mset 9 (''Treatment'', 1) + replicate_mset 6 (''Treatment'', 0)
   \<and> difference_of_means_abs (read_csv bta_rows) ''Group'' = Inr (Some 0.475)"
proof -
  have h: "mset bta_rows = replicate_mset 2 (''Control'', 1) + replicate_mset 14 (''Control'', 0)
                     + replicate_mset 9 (''Treatment'', 1) + replicate_mset 6 (''Treatment'', 0)"
    by (simp add: bta_rows_def numeral_2_eq_2)
  show ?thesis
    using h difference_of_means_abs_bta [OF h] by simp
qed

section \<open>The empirical p-value\<close>

text \<open>
  C1. The notebook's text says that the empirical p-value is the proportion of simulated
  statistics equal to or larger than the observed one; the code counts the simulated
  statistics that are less than or equal to it. On the null distribution 0, 0, 1 and the
  observed value 1/2 the code returns 2/3 and the fraction of values at least 1/2 is 1/3.
\<close>

theorem empirical_P_counts_at_most:
  "empirical_P [Some 0, Some 0, Some 1] (Some (1 / 2)) 3 = Inr (2 / 3)
   \<and> fraction_at_least [Some 0, Some 0, Some 1] (Some (1 / 2)) = 1 / 3"
  by (simp add: empirical_P_def fraction_at_least_def)

text \<open>
  C5. For a null distribution of \<open>repetitions\<close> values, \<open>repetitions\<close> positive, and any
  observed value, NaN included, the line computing \<^verbatim>\<open>empirical_P\<close> raises nothing and
  its value lies between 0 and 1.
\<close>

theorem empirical_P_in_unit_interval:
  assumes "length differences = repetitions" and "0 < repetitions"
  shows "\<exists>P. empirical_P differences observed_difference repetitions = Inr P \<and> 0 \<le> P \<and> P \<le> 1"
proof -
  have "length (filter (\<lambda>d. float_le d observed_difference) differences) \<le> repetitions"
    using assms(1) length_filter_le [of _ differences] by simp
  then show ?thesis
    using assms(2) by (simp add: empirical_P_def)
qed

theorem empirical_P_in_unit_interval_witness:
  "length [Some 0, Some (1 / 2), None] = (3::nat) \<and> (0::nat) < 3
   \<and> (\<exists>P. empirical_P [Some 0, Some (1 / 2), None] (Some (1 / 4)) 3 = Inr P \<and> 0 \<le> P \<and> P \<le> 1)"
  using empirical_P_in_unit_interval [of "[Some 0, Some (1 / 2), None]" 3 "Some (1 / 4)"] by simp

section \<open>One resampling iteration\<close>

lemma draw_length: "mset p = mset [0..<n] \<Longrightarrow> length p = n"
  using mset_eq_length by fastforce

lemma draw_set: "mset p = mset [0..<n] \<Longrightarrow> set p = {0..<n}"
  using mset_eq_setD by fastforce

lemma length_take_rows: "length (take_rows p xs) = length p"
  by (simp add: take_rows_def)

lemma mset_take_rows:
  assumes "mset p = mset [0..<length xs]"
  shows "mset (take_rows p xs) = mset xs"
proof -
  have "mset (take_rows p xs) = image_mset (\<lambda>i. xs ! i) (mset p)"
    by (simp add: take_rows_def)
  also have "\<dots> = mset (map (\<lambda>i. xs ! i) [0..<length xs])"
    by (simp add: assms)
  also have "\<dots> = mset xs"
    by (simp add: map_nth)
  finally show ?thesis .
qed

lemma take_rows_map:
  assumes "set p \<subseteq> {0..<length xs}"
  shows "take_rows p (map f xs) = map f (take_rows p xs)"
  using assms by (auto simp: take_rows_def)

lemma align_range:
  assumes "length vs = n"
  shows "align [0..<n] vs [0..<n] = vs"
proof (rule nth_equalityI)
  show "length (align [0..<n] vs [0..<n]) = length vs"
    using assms by (simp add: align_def)
next
  fix i
  assume "i < length (align [0..<n] vs [0..<n])"
  then have i: "i < n"
    by (simp add: align_def)
  then have "map_of (zip [0..<n] vs) ([0..<n] ! i) = Some (vs ! i)"
    using assms by (intro map_of_zip_nth) simp_all
  then show "align [0..<n] vs [0..<n] ! i = vs ! i"
    using i by (simp add: align_def)
qed

lemma col_length_col_take: "col_length (col_take p c) = length p"
  by (cases c) (simp_all add: length_take_rows)

lemma reindex_range:
  assumes "col_length c = n"
  shows "reindex \<lparr>s_index = [0..<n], s_values = c\<rparr> [0..<n] = c"
  using assms by (cases c) (simp_all add: reindex_def align_range)

lemma map_of_sampled:
  "map_of (map (\<lambda>(n, c). (n, col_take p c)) cs) g = map_option (col_take p) (map_of cs g)"
  by (induction cs) auto

lemma names_sampled: "map fst (map (\<lambda>(n, c). (n, col_take p c)) cs) = map fst cs"
  by (induction cs) auto

lemma names_sample: "map fst (columns (sample p df)) = map fst (columns df)"
  by (auto simp: sample_def)

lemma reset_index_fresh:
  assumes "nm = ''index'' \<or> (nm = ''level_0'' \<and> ''index'' \<in> set (map fst (columns d)))"
    and "nm \<notin> set (map fst (columns d))"
  shows "reset_index d = Inr \<lparr>index = [0..<length (index d)],
           columns = (nm, NumCol (map (\<lambda>l. Some (real l)) (index d))) # columns d\<rparr>"
  using assms by (auto simp: reset_index_def Let_def)

lemma temp_series:
  assumes ok: "''index'' \<notin> set (map fst (columns df)) \<or> ''level_0'' \<notin> set (map fst (columns df))"
    and g: "map_of (columns df) g = Some c"
  shows "\<exists>temp_df. reset_index (sample p df) = Inr temp_df
           \<and> getitem temp_df g = Inr \<lparr>s_index = [0..<length p], s_values = col_take p c\<rparr>"
proof -
  from g have mem: "g \<in> set (map fst (columns df))"
    by (metis map_of_eq_None_iff option.distinct(1) set_map)
  from ok obtain nm where nm: "nm = ''index'' \<or> (nm = ''level_0'' \<and> ''index'' \<in> set (map fst (columns df)))"
    and fresh: "nm \<notin> set (map fst (columns df))"
    by blast
  from fresh mem have neq: "g \<noteq> nm"
    by blast
  have "reset_index (sample p df) = Inr \<lparr>index = [0..<length (index (sample p df))],
           columns = (nm, NumCol (map (\<lambda>l. Some (real l)) (index (sample p df)))) # columns (sample p df)\<rparr>"
    by (rule reset_index_fresh) (use nm fresh in \<open>simp_all add: names_sample\<close>)
  moreover have "length (index (sample p df)) = length p"
    by (simp add: sample_def length_take_rows)
  moreover have "map_of (columns (sample p df)) g = Some (col_take p c)"
    by (simp add: sample_def map_of_sampled g)
  ultimately show ?thesis
    using neq by (simp add: getitem_def)
qed

lemma one_simulated_difference_unfold:
  assumes "''index'' \<notin> set (map fst (columns df)) \<or> ''level_0'' \<notin> set (map fst (columns df))"
    and "map_of (columns df) g = Some c"
  shows "one_simulated_difference p df g =
           (let caller = setitem df ''Shuffled Label'' \<lparr>s_index = [0..<length p], s_values = col_take p c\<rparr>
            in case drop_col caller g of
                 Inl e \<Rightarrow> (Inl e, caller)
               | Inr df' \<Rightarrow> (difference_of_means_abs df' ''Shuffled Label'', caller))"
proof -
  from temp_series [OF assms, of p] obtain temp_df where
    "reset_index (sample p df) = Inr temp_df"
    "getitem temp_df g = Inr \<lparr>s_index = [0..<length p], s_values = col_take p c\<rparr>"
    by blast
  then show ?thesis
    by (simp add: one_simulated_difference_def)
qed

lemma snd_one_simulated_difference:
  assumes "''index'' \<notin> set (map fst (columns df)) \<or> ''level_0'' \<notin> set (map fst (columns df))"
    and "map_of (columns df) g = Some c"
  shows "snd (one_simulated_difference p df g)
           = setitem df ''Shuffled Label'' \<lparr>s_index = [0..<length p], s_values = col_take p c\<rparr>"
  by (simp add: one_simulated_difference_unfold [OF assms] Let_def split: sum.splits)

lemma map_of_replace:
  "name \<in> fst ` set cs \<Longrightarrow>
     map_of (map (\<lambda>(n, c). if n = name then (n, v) else (n, c)) cs) name = Some v"
  by (induction cs) auto

lemma map_of_append_new:
  "name \<notin> fst ` set cs \<Longrightarrow> map_of (cs @ [(name, v)]) name = Some v"
  by (induction cs) auto

lemma map_of_setitem:
  "map_of (columns (setitem df name s)) name = Some (reindex s (index df))"
  by (simp add: setitem_def Let_def map_of_replace map_of_append_new del: map_of_append)

text \<open>
  C4. Take a frame with the default index \<open>0, ..., N - 1\<close> and a label column of \<open>N\<close>
  labels (a loaded table is one, and so is the frame any earlier iteration has left), and
  any draw of \<^verbatim>\<open>sample\<close>. After one call of \<^verbatim>\<open>one_simulated_difference\<close> the column
  \<^verbatim>\<open>Shuffled Label\<close> holds a permutation of the original labels, so every label occurs
  in it exactly as often as before: a split \<open>k / (N - k)\<close> stays \<open>k / (N - k)\<close>.
\<close>

theorem one_simulated_difference_permutes_labels:
  assumes "index df = [0..<N]"
    and "map_of (columns df) group_label = Some (StrCol labels)"
    and "length labels = N"
    and "is_draw p df"
    and "''index'' \<notin> set (map fst (columns df)) \<or> ''level_0'' \<notin> set (map fst (columns df))"
  shows "\<exists>shuffled.
           map_of (columns (snd (one_simulated_difference p df group_label))) ''Shuffled Label''
             = Some (StrCol shuffled)
           \<and> mset shuffled = mset labels
           \<and> (\<forall>a. length (filter (\<lambda>l. l = a) shuffled) = length (filter (\<lambda>l. l = a) labels))"
proof -
  from assms(1,4) have draw: "mset p = mset [0..<N]"
    by (simp add: is_draw_def)
  then have len: "length p = N"
    by (rule draw_length)
  have "snd (one_simulated_difference p df group_label)
          = setitem df ''Shuffled Label'' \<lparr>s_index = [0..<N], s_values = StrCol (take_rows p labels)\<rparr>"
    using snd_one_simulated_difference [OF assms(5,2), of p] len by simp
  moreover have "reindex \<lparr>s_index = [0..<N], s_values = StrCol (take_rows p labels)\<rparr> [0..<N]
                   = StrCol (take_rows p labels)"
    by (rule reindex_range) (simp add: length_take_rows len)
  ultimately have col: "map_of (columns (snd (one_simulated_difference p df group_label))) ''Shuffled Label''
          = Some (StrCol (take_rows p labels))"
    by (simp add: map_of_setitem assms(1))
  have perm: "mset (take_rows p labels) = mset labels"
    using draw assms(3) by (simp add: mset_take_rows)
  have "length (filter (\<lambda>l. l = a) (take_rows p labels)) = length (filter (\<lambda>l. l = a) labels)" for a
  proof -
    have "size (filter_mset (\<lambda>l. l = a) (mset (take_rows p labels)))
            = size (filter_mset (\<lambda>l. l = a) (mset labels))"
      by (simp only: perm)
    then show ?thesis
      by (simp only: mset_filter [symmetric] size_mset)
  qed
  with col perm show ?thesis
    by blast
qed


theorem one_simulated_difference_permutes_labels_witness:
  "index (read_csv [(''C'', 1), (''T'', 0), (''T'', 1)]) = [0..<3]
   \<and> map_of (columns (read_csv [(''C'', 1), (''T'', 0), (''T'', 1)])) ''Group''
       = Some (StrCol [Some ''C'', Some ''T'', Some ''T''])
   \<and> length [Some ''C'', Some ''T'', Some ''T''] = 3
   \<and> is_draw [2, 0, 1] (read_csv [(''C'', 1), (''T'', 0), (''T'', 1)])
   \<and> ''index'' \<notin> set (map fst (columns (read_csv [(''C'', 1), (''T'', 0), (''T'', 1)])))
   \<and> (\<exists>shuffled.
         map_of (columns (snd (one_simulated_difference [2, 0, 1]
                                 (read_csv [(''C'', 1), (''T'', 0), (''T'', 1)]) ''Group'')))
                ''Shuffled Label''
           = Some (StrCol shuffled)
         \<and> mset shuffled = mset [Some ''C'', Some ''T'', Some ''T'']
         \<and> (\<forall>a. length (filter (\<lambda>l. l = a) shuffled)
                  = length (filter (\<lambda>l. l = a) [Some ''C'', Some ''T'', Some ''T''])))"
proof -
  have h1: "index (read_csv [(''C'', 1), (''T'', 0), (''T'', 1)]) = [0..<3]"
    by (simp add: read_csv_def numeral_3_eq_3)
  have h2: "map_of (columns (read_csv [(''C'', 1), (''T'', 0), (''T'', 1)])) ''Group''
              = Some (StrCol [Some ''C'', Some ''T'', Some ''T''])"
    by (simp add: read_csv_def)
  have h3: "length [Some ''C'', Some ''T'', Some ''T''] = 3"
    by simp
  have h4: "is_draw [2, 0, 1] (read_csv [(''C'', 1), (''T'', 0), (''T'', 1)])"
    by (simp add: is_draw_def read_csv_def upt_rec)
  have h5: "''index'' \<notin> set (map fst (columns (read_csv [(''C'', 1), (''T'', 0), (''T'', 1)])))"
    by (simp add: read_csv_def)
  from h5 have h5': "''index'' \<notin> set (map fst (columns (read_csv [(''C'', 1), (''T'', 0), (''T'', 1)])))
      \<or> ''level_0'' \<notin> set (map fst (columns (read_csv [(''C'', 1), (''T'', 0), (''T'', 1)])))"
    by (rule disjI1)
  show ?thesis
    using h1 h2 h3 h4 h5 one_simulated_difference_permutes_labels [OF h1 h2 h3 h4 h5'] by blast
qed

text \<open>
  One iteration on a loaded table, or on the frame an earlier iteration has left: the
  value returned is the statistic of the relabelled table, and the caller's frame ends
  with the shuffled labels as its last column.
\<close>

lemma fst_relabel:
  "length p = length rows \<Longrightarrow> map fst (relabel p rows) = take_rows p (map fst rows)"
  by (simp add: relabel_def length_take_rows)

lemma snd_relabel:
  "length p = length rows \<Longrightarrow> map snd (relabel p rows) = map snd rows"
  by (simp add: relabel_def length_take_rows)

lemma labels_relabel:
  assumes "mset p = mset [0..<length rows]"
  shows "map (\<lambda>r. Some (fst r)) (relabel p rows) = take_rows p (map (\<lambda>r. Some (fst r)) rows)"
proof -
  have len: "length p = length rows"
    using assms by (rule draw_length)
  have "set p \<subseteq> {0..<length (map fst rows)}"
    using draw_set [OF assms] by simp
  then have "take_rows p (map Some (map fst rows)) = map Some (take_rows p (map fst rows))"
    by (rule take_rows_map)
  moreover have "map (\<lambda>r. Some (fst r)) (relabel p rows) = map Some (map fst (relabel p rows))"
    by simp
  ultimately show ?thesis
    by (simp add: fst_relabel [OF len] comp_def)
qed

lemma outcomes_relabel:
  assumes "mset p = mset [0..<length rows]"
  shows "map (\<lambda>r. Some (snd r)) (relabel p rows) = map (\<lambda>r. Some (snd r)) rows"
proof -
  have "map (\<lambda>r. Some (snd r)) (relabel p rows) = map Some (map snd (relabel p rows))"
    by simp
  also have "\<dots> = map Some (map snd rows)"
    by (simp only: snd_relabel [OF draw_length [OF assms]])
  finally show ?thesis
    by simp
qed

lemma label_set_relabel:
  assumes "mset p = mset [0..<length rows]"
  shows "fst ` set (relabel p rows) = fst ` set rows"
proof -
  have "mset (take_rows p (map fst rows)) = mset (map fst rows)"
    by (rule mset_take_rows) (simp add: assms)
  then have "set (take_rows p (map fst rows)) = set (map fst rows)"
    by (rule mset_eq_setD)
  then have "set (map fst (relabel p rows)) = set (map fst rows)"
    by (simp only: fst_relabel [OF draw_length [OF assms]])
  then show ?thesis
    by simp
qed

lemma one_simulated_difference_on_table:
  assumes idx: "index df = [0..<length rows]"
    and cols: "columns df = columns (read_csv rows) @ extra"
    and extra: "extra = [] \<or> (\<exists>old. extra = [(''Shuffled Label'', old)])"
    and draw: "mset p = mset [0..<length rows]"
  shows "one_simulated_difference p df ''Group'' =
           (difference_of_means_abs (read_csv (relabel p rows)) ''Group'',
            \<lparr>index = [0..<length rows],
             columns = columns (read_csv rows)
               @ [(''Shuffled Label'', StrCol (map (\<lambda>r. Some (fst r)) (relabel p rows)))]\<rparr>)"
proof -
  define shuffled where "shuffled = StrCol (map (\<lambda>r. Some (fst r)) (relabel p rows))"
  have len: "length p = length rows"
    using draw by (rule draw_length)
  have ok: "''index'' \<notin> set (map fst (columns df)) \<or> ''level_0'' \<notin> set (map fst (columns df))"
    using cols extra by (auto simp: read_csv_def)
  have g: "map_of (columns df) ''Group'' = Some (StrCol (map (\<lambda>r. Some (fst r)) rows))"
    using cols by (simp add: read_csv_def)
  have taken: "col_take p (StrCol (map (\<lambda>r. Some (fst r)) rows)) = shuffled"
    by (simp add: shuffled_def labels_relabel [OF draw])
  have "col_length shuffled = length rows"
    by (simp add: shuffled_def relabel_def length_take_rows len)
  then have re: "reindex \<lparr>s_index = [0..<length rows], s_values = shuffled\<rparr> [0..<length rows] = shuffled"
    by (rule reindex_range)
  have caller: "setitem df ''Shuffled Label'' \<lparr>s_index = [0..<length rows], s_values = shuffled\<rparr>
                  = \<lparr>index = [0..<length rows],
                     columns = columns (read_csv rows) @ [(''Shuffled Label'', shuffled)]\<rparr>"
    using cols extra idx by (auto simp: setitem_def Let_def re read_csv_def)
  have dropped: "drop_col \<lparr>index = [0..<length rows],
                     columns = columns (read_csv rows) @ [(''Shuffled Label'', shuffled)]\<rparr> ''Group''
                   = Inr \<lparr>index = [0..<length rows],
                          columns = [(''Result'', NumCol (map (\<lambda>r. Some (snd r)) rows)),
                                     (''Shuffled Label'', shuffled)]\<rparr>"
    by (simp add: drop_col_def read_csv_def)
  have stat: "difference_of_means_abs
                \<lparr>index = [0..<length rows],
                 columns = [(''Result'', NumCol (map (\<lambda>r. Some (snd r)) rows)),
                            (''Shuffled Label'', shuffled)]\<rparr> ''Shuffled Label''
              = difference_of_means_abs (read_csv (relabel p rows)) ''Group''"
    unfolding statistic_read_csv
    by (rule statistic_rows [where n = "''Result''" and others = "[]"])
      (simp_all add: shuffled_def outcomes_relabel [OF draw])
  show ?thesis
    unfolding one_simulated_difference_unfold [OF ok g] len taken
    unfolding shuffled_def [symmetric]
    by (simp add: caller dropped stat)
qed

section \<open>The repetitions loop\<close>

lemma repetitions_loop_append:
  "repetitions_loop rng (xs @ ys) st =
     (case repetitions_loop rng xs st of Inl e \<Rightarrow> Inl e | Inr st' \<Rightarrow> repetitions_loop rng ys st')"
proof (induction xs arbitrary: st)
  case Nil
  then show ?case by (cases st) simp
next
  case (Cons i xs)
  then show ?case by (cases st) (simp split: prod.splits sum.splits)
qed

lemma repetitions_loop_extends:
  "repetitions_loop rng js (ds0, df0) = Inr (ds, df') \<Longrightarrow>
     \<exists>new. ds = ds0 @ new \<and> length new = length js"
proof (induction js arbitrary: ds0 df0)
  case Nil
  then show ?case by simp
next
  case (Cons i js)
  from Cons.prems obtain d df1 where
    step: "one_simulated_difference (rng i) df0 ''Group'' = (Inr d, df1)"
    and rest: "repetitions_loop rng js (ds0 @ [d], df1) = Inr (ds, df')"
    by (auto split: prod.splits sum.splits)
  from Cons.IH [OF rest] obtain new where "ds = (ds0 @ [d]) @ new" and "length new = length js"
    by blast
  then have "ds = ds0 @ (d # new) \<and> length (d # new) = length (i # js)"
    by simp
  then show ?case
    by blast
qed

lemma repetitions_loop_on_table:
  assumes groups: "2 \<le> card (fst ` set rows)"
  shows "index df = [0..<length rows] \<Longrightarrow>
         columns df = columns (read_csv rows) @ extra \<Longrightarrow>
         extra = [] \<or> (\<exists>old. extra = [(''Shuffled Label'', old)]) \<Longrightarrow>
         (\<And>i. i \<in> set js \<Longrightarrow> mset (rng i) = mset [0..<length rows]) \<Longrightarrow>
         \<exists>ds df'. repetitions_loop rng js (ds0, df) = Inr (ds, df')"
proof (induction js arbitrary: ds0 df extra)
  case Nil
  then show ?case by simp
next
  case (Cons i js)
  have draw: "mset (rng i) = mset [0..<length rows]"
    by (rule Cons.prems(4)) simp
  define df1 where "df1 = \<lparr>index = [0..<length rows],
      columns = columns (read_csv rows)
        @ [(''Shuffled Label'', StrCol (map (\<lambda>r. Some (fst r)) (relabel (rng i) rows)))]\<rparr>"
  have step: "one_simulated_difference (rng i) df ''Group''
                = (difference_of_means_abs (read_csv (relabel (rng i) rows)) ''Group'', df1)"
    unfolding df1_def
    by (rule one_simulated_difference_on_table [OF Cons.prems(1) Cons.prems(2) Cons.prems(3) draw])
  have "2 \<le> card (fst ` set (relabel (rng i) rows))"
    using groups by (simp add: label_set_relabel [OF draw])
  then obtain v where stat: "difference_of_means_abs (read_csv (relabel (rng i) rows)) ''Group'' = Inr (Some v)"
    using statistic_first_two by blast
  have "\<exists>ds df'. repetitions_loop rng js (ds0 @ [Some v], df1) = Inr (ds, df')"
  proof (rule Cons.IH)
    show "index df1 = [0..<length rows]"
      by (simp add: df1_def)
    show "columns df1 = columns (read_csv rows)
        @ [(''Shuffled Label'', StrCol (map (\<lambda>r. Some (fst r)) (relabel (rng i) rows)))]"
      by (simp add: df1_def)
    show "[(''Shuffled Label'', StrCol (map (\<lambda>r. Some (fst r)) (relabel (rng i) rows)))] = []
        \<or> (\<exists>old. [(''Shuffled Label'', StrCol (map (\<lambda>r. Some (fst r)) (relabel (rng i) rows)))]
              = [(''Shuffled Label'', old)])"
      by simp
    show "mset (rng j) = mset [0..<length rows]" if "j \<in> set js" for j
      using that by (intro Cons.prems(4)) simp
  qed
  then show ?case
    by (simp add: step stat)
qed

text \<open>
  C7. On a loaded table with at least two labels present, and whatever the draws, the
  loop of \<open>repetitions\<close> iterations raises nothing and leaves \<open>repetitions\<close> values in
  \<^verbatim>\<open>differences\<close>; after the first \<open>n\<close> iterations the list holds the first \<open>n\<close> of them,
  so every iteration appends exactly one value and changes none.
\<close>

theorem repetitions_loop_appends_one_per_iteration:
  assumes "2 \<le> card (fst ` set rows)"
    and "\<forall>i<repetitions. is_draw (rng i) (read_csv rows)"
  shows "\<exists>differences bta_df'.
           simulate rng repetitions (read_csv rows) = Inr (differences, bta_df')
           \<and> length differences = repetitions
           \<and> (\<forall>n\<le>repetitions. \<exists>df. simulate rng n (read_csv rows) = Inr (take n differences, df))"
proof -
  have draws: "mset (rng i) = mset [0..<length rows]" if "i \<in> set [0..<repetitions]" for i
    using assms(2) that by (simp add: is_draw_def read_csv_def)
  have "\<exists>ds df'. repetitions_loop rng [0..<repetitions] ([], read_csv rows) = Inr (ds, df')"
    by (rule repetitions_loop_on_table [OF assms(1), where extra = "[]"])
      (simp_all add: read_csv_def draws)
  then obtain ds df' where run: "simulate rng repetitions (read_csv rows) = Inr (ds, df')"
    by (auto simp: simulate_def)
  then have len: "length ds = repetitions"
    using repetitions_loop_extends [of rng "[0..<repetitions]" "[]" "read_csv rows" ds df']
    by (auto simp: simulate_def)
  have "\<exists>df. simulate rng n (read_csv rows) = Inr (take n ds, df)" if n: "n \<le> repetitions" for n
  proof -
    have split: "[0..<repetitions] = [0..<n] @ [n..<repetitions]"
      using n by (metis le_add_diff_inverse upt_add_eq_append zero_le)
    from run obtain ds1 df1 where
      first: "repetitions_loop rng [0..<n] ([], read_csv rows) = Inr (ds1, df1)"
      and second: "repetitions_loop rng [n..<repetitions] (ds1, df1) = Inr (ds, df')"
      unfolding simulate_def split repetitions_loop_append
      by (auto split: sum.splits)
    from repetitions_loop_extends [OF first] have "length ds1 = n"
      by auto
    moreover from repetitions_loop_extends [OF second] obtain new where "ds = ds1 @ new"
      by blast
    ultimately have "take n ds = ds1"
      by simp
    with first show ?thesis
      by (auto simp: simulate_def)
  qed
  with run len show ?thesis
    by blast
qed

theorem repetitions_loop_appends_one_per_iteration_witness:
  "2 \<le> card (fst ` set [(''C'', 1::real), (''T'', 0), (''T'', 1)])
   \<and> is_draw [2, 0, 1] (read_csv [(''C'', 1), (''T'', 0), (''T'', 1)])
   \<and> (\<exists>differences bta_df'.
         simulate (\<lambda>i. [2, 0, 1]) 2 (read_csv [(''C'', 1), (''T'', 0), (''T'', 1)])
           = Inr (differences, bta_df')
         \<and> length differences = 2
         \<and> (\<forall>n\<le>2. \<exists>df. simulate (\<lambda>i. [2, 0, 1]) n (read_csv [(''C'', 1), (''T'', 0), (''T'', 1)])
                            = Inr (take n differences, df)))"
proof -
  have h1: "2 \<le> card (fst ` set [(''C'', 1::real), (''T'', 0), (''T'', 1)])"
    by (simp add: card_insert_if)
  have h2: "is_draw [2, 0, 1] (read_csv [(''C'', 1), (''T'', 0), (''T'', 1)])"
    by (simp add: is_draw_def read_csv_def upt_rec)
  then have h2': "\<forall>i<2. is_draw ((\<lambda>i. [2, 0, 1]) i) (read_csv [(''C'', 1), (''T'', 0), (''T'', 1)])"
    by simp
  show ?thesis
    using h1 h2 repetitions_loop_appends_one_per_iteration [OF h1 h2'] by blast
qed

section \<open>What a call leaves of the caller's frame\<close>

lemma filter_replace:
  "filter (\<lambda>c. fst c \<noteq> name) (map (\<lambda>(n, c). if n = name then (n, v) else (n, c)) cs)
     = filter (\<lambda>c. fst c \<noteq> name) cs"
  by (induction cs) (auto split: if_splits)

lemma setitem_frame:
  "index (setitem df name s) = index df"
  "filter (\<lambda>c. fst c \<noteq> name) (columns (setitem df name s)) = filter (\<lambda>c. fst c \<noteq> name) (columns df)"
  by (simp_all add: setitem_def Let_def filter_replace)

lemma one_simulated_difference_frame:
  "snd (one_simulated_difference p df g) = df
   \<or> (\<exists>s. snd (one_simulated_difference p df g) = setitem df ''Shuffled Label'' s)"
  by (auto simp: one_simulated_difference_def Let_def split: sum.splits)

text \<open>
  C9, as the code has it. \<^verbatim>\<open>difference_of_means_abs\<close> assigns nothing: it is a function of
  the frame. \<^verbatim>\<open>one_simulated_difference\<close> leaves the caller's row index and every column
  other than \<^verbatim>\<open>Shuffled Label\<close> as they were, whatever the frame, the label and the draw;
  on a loaded table the caller's frame has the columns \<^verbatim>\<open>Group\<close>, \<^verbatim>\<open>Result\<close> and the new
  \<^verbatim>\<open>Shuffled Label\<close> afterwards, and its statistic by \<^verbatim>\<open>Group\<close> is the one before the call.
\<close>

theorem one_simulated_difference_writes_shuffled_label:
  "index (snd (one_simulated_difference p df group_label)) = index df
   \<and> filter (\<lambda>c. fst c \<noteq> ''Shuffled Label'') (columns (snd (one_simulated_difference p df group_label)))
       = filter (\<lambda>c. fst c \<noteq> ''Shuffled Label'') (columns df)
   \<and> map fst (columns (snd (one_simulated_difference p (read_csv rows) ''Group'')))
       = [''Group'', ''Result'', ''Shuffled Label'']
   \<and> difference_of_means_abs (snd (one_simulated_difference p (read_csv rows) ''Group'')) ''Group''
       = difference_of_means_abs (read_csv rows) ''Group''"
proof -
  have frame: "index (snd (one_simulated_difference p df group_label)) = index df
     \<and> filter (\<lambda>c. fst c \<noteq> ''Shuffled Label'') (columns (snd (one_simulated_difference p df group_label)))
       = filter (\<lambda>c. fst c \<noteq> ''Shuffled Label'') (columns df)"
    using one_simulated_difference_frame [of p df group_label]
    by (auto simp: setitem_frame)
  have ok: "''index'' \<notin> set (map fst (columns (read_csv rows)))
      \<or> ''level_0'' \<notin> set (map fst (columns (read_csv rows)))"
    by (simp add: read_csv_def)
  have g: "map_of (columns (read_csv rows)) ''Group'' = Some (StrCol (map (\<lambda>r. Some (fst r)) rows))"
    by (simp add: read_csv_def)
  obtain sl where sl: "reindex \<lparr>s_index = [0..<length p],
        s_values = col_take p (StrCol (map (\<lambda>r. Some (fst r)) rows))\<rparr> (index (read_csv rows)) = StrCol sl"
    by (simp add: reindex_def)
  have after: "columns (snd (one_simulated_difference p (read_csv rows) ''Group''))
                 = columns (read_csv rows) @ [(''Shuffled Label'', StrCol sl)]"
    unfolding snd_one_simulated_difference [OF ok g]
    using sl by (simp add: setitem_def Let_def read_csv_def)
  have names: "map fst (columns (snd (one_simulated_difference p (read_csv rows) ''Group'')))
                 = [''Group'', ''Result'', ''Shuffled Label'']"
    unfolding after by (simp add: read_csv_def)
  have "difference_of_means_abs (snd (one_simulated_difference p (read_csv rows) ''Group'')) ''Group''
          = difference_of_means_abs (read_csv rows) ''Group''"
    unfolding statistic_read_csv
    by (rule statistic_rows [where n = "''Result''" and others = "[]"])
      (simp_all only: after, simp_all add: read_csv_def)
  with frame names show ?thesis
    by blast
qed

text \<open>
  C9 as stated fails: after one iteration on a table of two rows the caller's frame has a
  third column and is not the frame that was passed.
\<close>

theorem one_simulated_difference_changes_caller_counterexample:
  "snd (one_simulated_difference [1, 0] (read_csv [(''Control'', 1), (''Treatment'', 0)]) ''Group'')
     = \<lparr>index = [0, 1],
        columns = [(''Group'', StrCol [Some ''Control'', Some ''Treatment'']),
                   (''Result'', NumCol [Some 1, Some 0]),
                   (''Shuffled Label'', StrCol [Some ''Treatment'', Some ''Control''])]\<rparr>
   \<and> snd (one_simulated_difference [1, 0] (read_csv [(''Control'', 1), (''Treatment'', 0)]) ''Group'')
     \<noteq> read_csv [(''Control'', 1), (''Treatment'', 0)]"
  by code_simp

end
